theory Spec2Isabelle
  imports Complex_Main "HOL-Library.Sublist"
begin

section \<open>Python primitives used by the two helpers\<close>

text \<open>
  A \<open>str\<close> is modelled as a \<open>string\<close> whose characters are the code points below 256.
  A \<open>float\<close> is modelled by the real number it denotes; an \<open>int\<close> is unbounded.
  Exceptions are values of the type \<open>error\<close>, and a computation that may raise returns
  \<open>error + 'a\<close> with \<open>Inl\<close> for the exception.
\<close>

datatype error =
    FileNotFoundError
  | IsADirectoryError
  | ValueError
  | OverflowError
  | ZeroDivisionError
  | IndexError

subsection \<open>Whitespace, \<open>str.strip\<close>, \<open>str.split\<close>, \<open>str.startswith\<close>, \<open>in\<close>\<close>

text \<open>
  \<open>str.isspace\<close> on the code points below 256: U+0009 to U+000D, U+001C to U+0020,
  U+0085 and U+00A0.
\<close>

definition isspace :: "char \<Rightarrow> bool" where
  "isspace c =
     (let n = (of_char c :: nat)
      in (9 \<le> n \<and> n \<le> 13) \<or> (28 \<le> n \<and> n \<le> 32) \<or> n = 133 \<or> n = 160)"

definition strip :: "string \<Rightarrow> string" where
  "strip s = rev (dropWhile isspace (rev (dropWhile isspace s)))"

text \<open>
  \<open>s.split()\<close> without a separator: the maximal runs of non-whitespace characters, in
  order. The second argument is the token being read.
\<close>

fun split_from :: "string \<Rightarrow> string \<Rightarrow> string list" where
  "split_from [] tok = (if tok = [] then [] else [tok])"
| "split_from (c # cs) tok =
     (if isspace c then (if tok = [] then split_from cs [] else tok # split_from cs [])
      else split_from cs (tok @ [c]))"

definition split :: "string \<Rightarrow> string list" where
  "split s = split_from s []"

definition startswith :: "string \<Rightarrow> string \<Rightarrow> bool" where
  "startswith s p = prefix p s"

definition endswith :: "string \<Rightarrow> string \<Rightarrow> bool" where
  "endswith s p = suffix p s"

text \<open>\<open>p in s\<close> for two strings: \<open>p\<close> occurs in \<open>s\<close> as a contiguous substring.\<close>

fun contains :: "string \<Rightarrow> string \<Rightarrow> bool" where
  "contains p [] = (p = [])"
| "contains p (c # cs) = (prefix p (c # cs) \<or> contains p cs)"

subsection \<open>\<open>int(token)\<close>\<close>

text \<open>
  \<open>int\<close> on a string strips whitespace, reads an optional sign and then decimal digits,
  where single underscores may stand between digits; anything else raises \<open>ValueError\<close>.
  So does a literal with more digits than \<open>sys.get_int_max_str_digits()\<close>, which is 4300
  by default (CPython 3.11 and later, and the security releases of the versions before).
\<close>

definition int_max_str_digits :: nat where
  "int_max_str_digits = 4300"

definition isdigit :: "char \<Rightarrow> bool" where
  "isdigit c = (let n = (of_char c :: nat) in 48 \<le> n \<and> n \<le> 57)"

definition digit_value :: "char \<Rightarrow> int" where
  "digit_value c = int (of_char c) - 48"

text \<open>
  The flag says whether the previous character was a digit: an underscore is accepted
  only after a digit, and the literal must end with a digit.
\<close>

fun parse_digits :: "string \<Rightarrow> bool \<Rightarrow> int \<Rightarrow> int option" where
  "parse_digits [] prev acc = (if prev then Some acc else None)"
| "parse_digits (c # cs) prev acc =
     (if isdigit c then parse_digits cs True (10 * acc + digit_value c)
      else if c = CHR ''_'' \<and> prev then parse_digits cs False acc
      else None)"

definition py_int :: "string \<Rightarrow> error + int" where
  "py_int s =
     (let t = strip s;
          r = (case t of
                 [] \<Rightarrow> None
               | c # cs \<Rightarrow>
                   if c = CHR ''-'' then map_option uminus (parse_digits cs False 0)
                   else if c = CHR ''+'' then parse_digits cs False 0
                   else parse_digits t False 0)
      in case r of
           None \<Rightarrow> Inl ValueError
         | Some n \<Rightarrow>
             if int_max_str_digits < length (filter isdigit t) then Inl ValueError else Inr n)"

subsection \<open>True division of two integers\<close>

text \<open>
  \<open>a / b\<close> on integers is the double nearest to the exact quotient; the model returns
  the exact quotient. Rounding to the nearest double is monotone and keeps 0 and 1, so
  a bound by 0 or by 1 on the quotient holds for the double as well. The division raises
  \<open>OverflowError\<close> when the rounding leaves the range of the doubles, which happens from
  \<open>2^1024 - 2^970\<close> on (the midpoint between the largest double and \<open>2^1024\<close>).
\<close>

definition float_overflow_threshold :: real where
  "float_overflow_threshold = 2 ^ 1024 - 2 ^ 970"

definition py_truediv :: "int \<Rightarrow> int \<Rightarrow> error + real" where
  "py_truediv a b =
     (if b = 0 then Inl ZeroDivisionError
      else if float_overflow_threshold \<le> \<bar>real_of_int a / real_of_int b\<bar> then Inl OverflowError
      else Inr (real_of_int a / real_of_int b))"

subsection \<open>\<open>os.path.join\<close>, the file system, reading a text file line by line\<close>

text \<open>\<open>posixpath.join\<close> with two arguments.\<close>

definition path_join :: "string \<Rightarrow> string \<Rightarrow> string" where
  "path_join a b =
     (if startswith b ''/'' \<or> a = [] then b
      else if endswith a ''/'' then a @ b
      else a @ ''/'' @ b)"

text \<open>
  A path names nothing, a directory, or a regular file with its decoded text.
  \<open>os.path.exists\<close> holds for a directory too; \<open>open\<close> on it raises.
\<close>

datatype node = Directory | RegularFile string

type_synonym filesystem = "string \<Rightarrow> node option"

text \<open>
  Iterating over a file opened in text mode: the lines keep their terminator, and the
  terminators \<open>\r\n\<close> and \<open>\r\<close> are read as \<open>\n\<close> (universal newlines).
\<close>

fun lines_from :: "string \<Rightarrow> string \<Rightarrow> string list" where
  "lines_from [] cur = (if cur = [] then [] else [cur])"
| "lines_from (c # cs) cur =
     (if c = CHR 0x0A then (cur @ [CHR 0x0A]) # lines_from cs []
      else if c = CHR 0x0D then
        (case cs of
           [] \<Rightarrow> [cur @ [CHR 0x0A]]
         | d # ds \<Rightarrow>
             if d = CHR 0x0A then (cur @ [CHR 0x0A]) # lines_from ds []
             else (cur @ [CHR 0x0A]) # lines_from cs [])
      else lines_from cs (cur @ [c]))"

definition text_lines :: "string \<Rightarrow> string list" where
  "text_lines text = lines_from text []"

section \<open>The colormap loader\<close>

text \<open>
  \<open>load_ncl_rgb_colors\<close> in \<open>load_colormaps.py\<close>; the specification calls it
  \<open>load_colors\<close>. A colour is a triple of floats.
\<close>

type_synonym color = "real \<times> real \<times> real"

text \<open>
  \<open>r, g, b = map(int, parts)\<close> on three tokens: the tokens are converted from left to
  right and the first failure raises.
\<close>

definition map_int3 :: "string \<Rightarrow> string \<Rightarrow> string \<Rightarrow> error + (int \<times> int \<times> int)" where
  "map_int3 p0 p1 p2 =
     (case py_int p0 of
        Inl e \<Rightarrow> Inl e
      | Inr r \<Rightarrow>
          (case py_int p1 of
             Inl e \<Rightarrow> Inl e
           | Inr g \<Rightarrow>
               (case py_int p2 of
                  Inl e \<Rightarrow> Inl e
                | Inr b \<Rightarrow> Inr (r, g, b))))"

text \<open>The tuple \<open>(r / 255, g / 255, b / 255)\<close>, evaluated from left to right.\<close>

definition normalized :: "int \<Rightarrow> int \<Rightarrow> int \<Rightarrow> error + color" where
  "normalized r g b =
     (case py_truediv r 255 of
        Inl e \<Rightarrow> Inl e
      | Inr x \<Rightarrow>
          (case py_truediv g 255 of
             Inl e \<Rightarrow> Inl e
           | Inr y \<Rightarrow>
               (case py_truediv b 255 of
                  Inl e \<Rightarrow> Inl e
                | Inr z \<Rightarrow> Inr (x, y, z))))"

text \<open>
  The body of the \<open>for\<close> loop, on one line of the file and the list \<open>colors\<close> built so far.
  \<open>continue\<close> and a line that does not split into three tokens leave \<open>colors\<close> as it is.
\<close>

definition loop_body :: "string \<Rightarrow> color list \<Rightarrow> error + color list" where
  "loop_body line0 colors =
     (let line = strip line0
      in if line = [] \<or> startswith line ''#'' \<or> contains ''ncolors'' line then Inr colors
         else
           (let parts = split line
            in case parts of
                 [p0, p1, p2] \<Rightarrow>
                   (case map_int3 p0 p1 p2 of
                      Inl e \<Rightarrow> Inl e
                    | Inr (r, g, b) \<Rightarrow>
                        (case normalized r g b of
                           Inl e \<Rightarrow> Inl e
                         | Inr c \<Rightarrow> Inr (colors @ [c])))
               | _ \<Rightarrow> Inr colors))"

fun for_lines :: "string list \<Rightarrow> color list \<Rightarrow> error + color list" where
  "for_lines [] colors = Inr colors"
| "for_lines (line # rest) colors =
     (case loop_body line colors of
        Inl e \<Rightarrow> Inl e
      | Inr colors' \<Rightarrow> for_lines rest colors')"

definition load_ncl_rgb_colors :: "filesystem \<Rightarrow> string \<Rightarrow> string \<Rightarrow> error + color list" where
  "load_ncl_rgb_colors fs name base_path =
     (let path = path_join base_path (name @ ''.rgb'')
      in case fs path of
           None \<Rightarrow> Inl FileNotFoundError
         | Some Directory \<Rightarrow> Inl IsADirectoryError
         | Some (RegularFile text) \<Rightarrow> for_lines (text_lines text) [])"

text \<open>The default of the parameter \<open>base_path\<close>.\<close>

definition default_base_path :: string where
  "default_base_path = ''plot_utils/colormaps''"

section \<open>The hull of the valid grid points\<close>

subsection \<open>Arrays, indexing and masks\<close>

text \<open>
  An element of the data array is a double: not-a-number, an infinity or a finite value.
  Only \<open>np.isnan\<close> looks at it.
\<close>

datatype float64 = NaN | PosInf | NegInf | Finite real

fun isnan :: "float64 \<Rightarrow> bool" where
  "isnan NaN = True"
| "isnan _ = False"

text \<open>
  A coordinate is a finite double, modelled by its real value; a point is a pair
  \<open>(lon, lat)\<close>.
\<close>

type_synonym point = "real \<times> real"

text \<open>
  The \<open>DataArray\<close>: its \<open>values\<close> (the field \<open>data_values\<close>) have the shape
  \<open>[eps, ref_time, y, x]\<close>, the coordinates \<open>lat\<close> and \<open>lon\<close> have the shape \<open>[y, x]\<close>.
  An array is the list of its rows.
\<close>

record data_array =
  data_values :: "float64 list list list list"
  lat :: "real list list"
  lon :: "real list list"

text \<open>
  Indexing one axis with an integer: an index from \<open>-n\<close> to \<open>-1\<close> counts from the end,
  an index outside \<open>-n\<close> to \<open>n - 1\<close> raises \<open>IndexError\<close>.
\<close>

definition py_index :: "'a list \<Rightarrow> int \<Rightarrow> error + 'a" where
  "py_index xs i =
     (if 0 \<le> i \<and> i < int (length xs) then Inr (xs ! nat i)
      else if - int (length xs) \<le> i \<and> i < 0 then Inr (xs ! nat (i + int (length xs)))
      else Inl IndexError)"

text \<open>\<open>a[i, j]\<close> on the first two axes.\<close>

definition index2 :: "'a list list \<Rightarrow> int \<Rightarrow> int \<Rightarrow> error + 'a" where
  "index2 a i j =
     (case py_index a i of
        Inl e \<Rightarrow> Inl e
      | Inr row \<Rightarrow> py_index row j)"

text \<open>\<open>~np.isnan(data_2d)\<close>, element by element.\<close>

definition not_isnan :: "float64 list list \<Rightarrow> bool list list" where
  "not_isnan data_2d = map (map (\<lambda>v. \<not> isnan v)) data_2d"

text \<open>
  \<open>a[m]\<close> with a boolean array \<open>m\<close>: the shapes must agree, or \<open>IndexError\<close> is raised; the
  result is the one-dimensional array of the elements where the mask holds, row by row.
\<close>

definition shape :: "'a list list \<Rightarrow> nat list" where
  "shape a = map length a"

definition mask_select :: "'a list list \<Rightarrow> bool list list \<Rightarrow> error + 'a list" where
  "mask_select a m =
     (if shape a = shape m
      then Inr (map fst (filter snd (zip (concat a) (concat m))))
      else Inl IndexError)"

subsection \<open>Geometries\<close>

text \<open>
  The geometries a convex hull can be. The hull itself is computed by the geometry
  library, not by this repository: the function takes it as its first argument, a
  function from the points of a \<open>MultiPoint\<close> to a geometry.
\<close>

datatype geometry =
    GeometryCollectionEmpty
  | Point point
  | LineString "point list"
  | Polygon "point list"


subsection \<open>\<open>get_valid_data_frame\<close>\<close>

text \<open>
  \<open>get_valid_data_frame\<close> in \<open>plot_valid_data_frame.py\<close>; the specification calls it
  \<open>compute_valid_hull\<close>. The model returns the result together with the data array as
  it is after the call. \<open>None\<close> is Python's \<open>None\<close>.
\<close>

definition get_valid_data_frame ::
    "(point list \<Rightarrow> geometry) \<Rightarrow> data_array \<Rightarrow> int \<times> int
       \<Rightarrow> (error + geometry option) \<times> data_array" where
  "get_valid_data_frame convex_hull data_array level_idx =
     (case index2 (data_values data_array) (fst level_idx) (snd level_idx) of
        Inl e \<Rightarrow> (Inl e, data_array)
      | Inr data_2d \<Rightarrow>
          (let valid_mask = not_isnan data_2d
           in case mask_select (lat data_array) valid_mask of
                Inl e \<Rightarrow> (Inl e, data_array)
              | Inr valid_lat \<Rightarrow>
                  (case mask_select (lon data_array) valid_mask of
                     Inl e \<Rightarrow> (Inl e, data_array)
                   | Inr valid_lon \<Rightarrow>
                       if length valid_lat < 3 then (Inr None, data_array)
                       else (Inr (Some (convex_hull (zip valid_lon valid_lat))), data_array))))"

text \<open>The default of the parameter \<open>level_idx\<close>.\<close>

definition default_level_idx :: "int \<times> int" where
  "default_level_idx = (0, 0)"

section \<open>The notions of the specification\<close>

subsection \<open>The colormap file format\<close>

text \<open>
  A decimal integer is a non-empty string of the digits \<open>0\<close> to \<open>9\<close>. A channel of the
  file format is a decimal integer from 0 to 255 that is written with at most
  \<open>int_max_str_digits\<close> digits.
\<close>

definition is_decimal :: "string \<Rightarrow> bool" where
  "is_decimal tok = (tok \<noteq> [] \<and> list_all isdigit tok)"

definition decimal_value :: "string \<Rightarrow> int" where
  "decimal_value tok = foldl (\<lambda>a c. 10 * a + digit_value c) 0 tok"

definition channel :: "string \<Rightarrow> int option" where
  "channel tok =
     (if is_decimal tok \<and> length tok \<le> int_max_str_digits \<and> decimal_value tok \<le> 255
      then Some (decimal_value tok) else None)"

text \<open>
  A valid triplet line consists of exactly three channels, separated by whitespace;
  \<open>triplet_of\<close> reads them.
\<close>

definition triplet_of :: "string \<Rightarrow> (int \<times> int \<times> int) option" where
  "triplet_of line =
     (case split (strip line) of
        [t0, t1, t2] \<Rightarrow>
          (case channel t0 of
             None \<Rightarrow> None
           | Some r \<Rightarrow>
               (case channel t1 of
                  None \<Rightarrow> None
                | Some g \<Rightarrow>
                    (case channel t2 of
                       None \<Rightarrow> None
                     | Some b \<Rightarrow> Some (r, g, b))))
      | _ \<Rightarrow> None)"

definition valid_triplet_line :: "string \<Rightarrow> bool" where
  "valid_triplet_line line = (triplet_of line \<noteq> None)"

text \<open>The other content lines: empty, a comment, or the header with \<open>ncolors\<close>.\<close>

definition skippable_line :: "string \<Rightarrow> bool" where
  "skippable_line line =
     (strip line = [] \<or> startswith (strip line) ''#'' \<or> contains ''ncolors'' (strip line))"

text \<open>A file is well formed when each of its lines is of one of these four kinds.\<close>

definition well_formed_line :: "string \<Rightarrow> bool" where
  "well_formed_line line = (skippable_line line \<or> valid_triplet_line line)"

text \<open>The colour of a triplet, and the colours with every component from 0 to 1.\<close>

definition color_of :: "int \<times> int \<times> int \<Rightarrow> color" where
  "color_of t = (case t of (r, g, b) \<Rightarrow>
     (real_of_int r / 255, real_of_int g / 255, real_of_int b / 255))"

definition in_unit_cube :: "color \<Rightarrow> bool" where
  "in_unit_cube c = (case c of (x, y, z) \<Rightarrow>
     0 \<le> x \<and> x \<le> 1 \<and> 0 \<le> y \<and> y \<le> 1 \<and> 0 \<le> z \<and> z \<le> 1)"


subsection \<open>Valid points and the convex hull\<close>

text \<open>
  The valid points of a slice: the pairs \<open>(lon, lat)\<close> at the positions \<open>(y, x)\<close> where
  the value is not NaN, row by row.
\<close>

definition row_valid_points :: "float64 list \<Rightarrow> real list \<Rightarrow> real list \<Rightarrow> point list" where
  "row_valid_points row lon_row lat_row =
     map (\<lambda>x. (lon_row ! x, lat_row ! x)) (filter (\<lambda>x. \<not> isnan (row ! x)) [0..<length row])"

definition valid_points :: "float64 list list \<Rightarrow> real list list \<Rightarrow> real list list \<Rightarrow> point list" where
  "valid_points data_2d lons lats =
     concat (map (\<lambda>y. row_valid_points (data_2d ! y) (lons ! y) (lats ! y)) [0..<length data_2d])"

definition valid_count :: "float64 list list \<Rightarrow> nat" where
  "valid_count data_2d = length (filter (\<lambda>v. \<not> isnan v) (concat data_2d))"

text \<open>The coordinate arrays are aligned with the slice: all three have the same shape.\<close>

definition aligned :: "data_array \<Rightarrow> float64 list list \<Rightarrow> bool" where
  "aligned da data_2d = (shape (lat da) = shape data_2d \<and> shape (lon da) = shape data_2d)"

text \<open>
  \<open>v\<close> lies strictly between \<open>a\<close> and \<open>b\<close>: on the segment from \<open>a\<close> to \<open>b\<close> and different
  from both. \<open>cross a b c\<close> and \<open>dot a b c\<close> are the cross and the dot product of
  \<open>b - a\<close> and \<open>c - a\<close>.
\<close>

definition cross :: "point \<Rightarrow> point \<Rightarrow> point \<Rightarrow> real" where
  "cross a b c = (fst b - fst a) * (snd c - snd a) - (snd b - snd a) * (fst c - fst a)"

definition dot :: "point \<Rightarrow> point \<Rightarrow> point \<Rightarrow> real" where
  "dot a b c = (fst b - fst a) * (fst c - fst a) + (snd b - snd a) * (snd c - snd a)"

definition strictly_between :: "point \<Rightarrow> point \<Rightarrow> point \<Rightarrow> bool" where
  "strictly_between a v b = (cross a b v = 0 \<and> 0 < dot a b v \<and> dot a b v < dot a b b)"


text \<open>
  A hull to compute with: the extreme points of the input, in the order of the input. A
  point is extreme when it lies neither strictly between two other points nor in a
  triangle of three other points. One point gives a \<open>Point\<close>, two give a \<open>LineString\<close>.
  The library orders the vertices along the boundary and closes the ring; the
  properties below do not depend on the order.
\<close>

definition in_triangle :: "point \<Rightarrow> point \<Rightarrow> point \<Rightarrow> point \<Rightarrow> bool" where
  "in_triangle a b c v =
     (cross a b c \<noteq> 0 \<and>
      \<not> ((cross a b v < 0 \<or> cross b c v < 0 \<or> cross c a v < 0) \<and>
         (0 < cross a b v \<or> 0 < cross b c v \<or> 0 < cross c a v)))"

definition extreme_in :: "point list \<Rightarrow> point \<Rightarrow> bool" where
  "extreme_in ps v =
     (let others = removeAll v ps
      in \<not> list_ex (\<lambda>a. list_ex (\<lambda>b. strictly_between a v b \<or>
                                         list_ex (\<lambda>c. in_triangle a b c v) others) others) others)"

definition reference_hull :: "point list \<Rightarrow> geometry" where
  "reference_hull ps =
     (case filter (extreme_in ps) (remdups ps) of
        [] \<Rightarrow> GeometryCollectionEmpty
      | [p] \<Rightarrow> Point p
      | [p, q] \<Rightarrow> LineString [p, q]
      | vs \<Rightarrow> Polygon vs)"


section \<open>Example inputs\<close>

text \<open>A colormap with a comment, the header, two triplets and an empty line.\<close>

definition demo_text :: string where
  "demo_text = ''# demo\<newline>ncolors 2\<newline>255 0 128\<newline>\<newline>0 64 255\<newline>''"

definition demo_fs :: filesystem where
  "demo_fs =
     (\<lambda>p. if p = ''plot_utils/colormaps/demo.rgb'' then Some (RegularFile demo_text) else None)"

text \<open>A colormap with a comment and the header only.\<close>

definition header_only_text :: string where
  "header_only_text = ''# comment\<newline>ncolors 3\<newline>''"

definition header_only_fs :: filesystem where
  "header_only_fs =
     (\<lambda>p. if p = ''plot_utils/colormaps/header.rgb'' then Some (RegularFile header_only_text)
          else None)"

text \<open>A colormap with channels above 255 and below 0.\<close>

definition out_of_range_text :: string where
  "out_of_range_text = ''300 0 0\<newline>-1 0 0\<newline>''"

definition out_of_range_fs :: filesystem where
  "out_of_range_fs =
     (\<lambda>p. if p = ''plot_utils/colormaps/bad.rgb'' then Some (RegularFile out_of_range_text)
          else None)"

definition empty_fs :: filesystem where
  "empty_fs = (\<lambda>p. None)"

text \<open>A colormap with one line: 4301 zeros, then \<open>0\<close> and \<open>0\<close>.\<close>

definition long_zero_token :: string where
  "long_zero_token = replicate 4301 CHR ''0''"

definition long_zero_text :: string where
  "long_zero_text = long_zero_token @ '' 0 0\<newline>''"

definition long_zero_fs :: filesystem where
  "long_zero_fs =
     (\<lambda>p. if p = ''plot_utils/colormaps/long.rgb'' then Some (RegularFile long_zero_text)
          else None)"



definition grid_with_gaps :: data_array where
  "grid_with_gaps =
     \<lparr>data_values = [[[[Finite 1, NaN, Finite 2], [NaN, Finite 3, Finite 4]]]],
      lat = [[0, 0, 0], [1, 1, 1]],
      lon = [[0, 1, 2], [0, 1, 2]]\<rparr>"

definition grid_two_valid :: data_array where
  "grid_two_valid =
     \<lparr>data_values = [[[[Finite 1, NaN, NaN], [NaN, NaN, Finite 4]]]],
      lat = [[0, 0, 0], [1, 1, 1]],
      lon = [[0, 1, 2], [0, 1, 2]]\<rparr>"

definition grid_collinear :: data_array where
  "grid_collinear =
     \<lparr>data_values = [[[[Finite 1, Finite 2, Finite 3]]]],
      lat = [[0, 0, 0]],
      lon = [[0, 1, 2]]\<rparr>"

section \<open>Facts about the primitives\<close>

text \<open>The overflow threshold is far above the quotients of small integers.\<close>

lemma float_overflow_threshold_gt: "2 < float_overflow_threshold"
proof -
  have "(2::real) ^ 1024 = 2 ^ 970 * 2 ^ 54" by (simp flip: power_add)
  then have eq: "float_overflow_threshold = 2 ^ 970 * (2 ^ 54 - 1)"
    by (simp add: float_overflow_threshold_def algebra_simps)
  have "(2::real) = 1 * 2" by simp
  also have "\<dots> < 2 ^ 970 * (2 ^ 54 - 1)"
    by (intro mult_le_less_imp_less) simp_all
  finally show ?thesis using eq by simp
qed

lemma py_truediv_255_small:
  assumes "\<bar>a\<bar> \<le> 510"
  shows "py_truediv a 255 = Inr (real_of_int a / 255)"
proof -
  have "\<bar>real_of_int a\<bar> \<le> 510" using assms by linarith
  then have "\<bar>real_of_int a / 255\<bar> \<le> 2" by simp
  then show ?thesis using float_overflow_threshold_gt by (simp add: py_truediv_def)
qed

lemma py_truediv_255_error: "py_truediv a 255 = Inl e \<Longrightarrow> e = OverflowError"
  by (simp add: py_truediv_def split: if_splits)

lemma py_int_error: "py_int s = Inl e \<Longrightarrow> e = ValueError"
  by (simp add: py_int_def Let_def split: option.splits if_splits)

text \<open>\<open>int\<close> reads a decimal token as its value.\<close>

lemma isdigit_not_isspace: "isdigit c \<Longrightarrow> \<not> isspace c"
  by (simp add: isdigit_def isspace_def Let_def)

lemma strip_id: "s \<noteq> [] \<Longrightarrow> \<not> isspace (hd s) \<Longrightarrow> \<not> isspace (last s) \<Longrightarrow> strip s = s"
proof -
  assume ne: "s \<noteq> []" and h: "\<not> isspace (hd s)" and l: "\<not> isspace (last s)"
  have keep: "dropWhile isspace xs = xs" if "xs \<noteq> []" "\<not> isspace (hd xs)" for xs
    using that by (cases xs) auto
  have "dropWhile isspace s = s" using ne h by (rule keep)
  moreover have "dropWhile isspace (rev s) = rev s"
    using ne l by (intro keep) (simp_all add: hd_rev)
  ultimately show ?thesis by (simp add: strip_def)
qed

lemma parse_digits_all: 
  "list_all isdigit s \<Longrightarrow> s \<noteq> [] \<or> prev \<Longrightarrow>
     parse_digits s prev acc = Some (foldl (\<lambda>a c. 10 * a + digit_value c) acc s)"
  by (induction s arbitrary: prev acc) auto

lemma py_int_decimal:
  assumes "is_decimal tok" "length tok \<le> int_max_str_digits"
  shows "py_int tok = Inr (decimal_value tok)"
proof -
  from assms obtain c cs where tok: "tok = c # cs" and all: "list_all isdigit tok"
    by (cases tok) (auto simp: is_decimal_def)
  have "isdigit (hd tok)" "isdigit (last tok)"
    using all tok by (auto simp: list_all_iff)
  then have st: "strip tok = tok"
    using tok by (intro strip_id) (auto dest: isdigit_not_isspace)
  have "c \<noteq> CHR ''-''" "c \<noteq> CHR ''+''"
    using all tok by (auto simp: isdigit_def)
  moreover have "parse_digits tok False 0 = Some (decimal_value tok)"
    using all tok by (simp add: parse_digits_all decimal_value_def del: parse_digits.simps)
  moreover have "filter isdigit tok = tok"
    using all by (simp add: list_all_iff)
  ultimately show ?thesis
    using st tok assms(2) by (simp add: py_int_def del: parse_digits.simps)
qed

text \<open>\<open>int\<close> refuses a decimal token with more than \<open>int_max_str_digits\<close> digits.\<close>

lemma py_int_too_long:
  assumes "is_decimal tok" "int_max_str_digits < length tok"
  shows "py_int tok = Inl ValueError"
proof -
  from assms(1) obtain c cs where tok: "tok = c # cs" and all: "list_all isdigit tok"
    by (cases tok) (auto simp: is_decimal_def)
  have "isdigit (hd tok)" "isdigit (last tok)"
    using all tok by (auto simp: list_all_iff)
  then have st: "strip tok = tok"
    using tok by (intro strip_id) (auto dest: isdigit_not_isspace)
  have "c \<noteq> CHR ''-''" "c \<noteq> CHR ''+''"
    using all tok by (auto simp: isdigit_def)
  then have "py_int tok =
      (case parse_digits tok False 0 of
         None \<Rightarrow> Inl ValueError
       | Some n \<Rightarrow>
           if int_max_str_digits < length (filter isdigit tok) then Inl ValueError else Inr n)"
    using st unfolding tok by (simp add: py_int_def Let_def del: parse_digits.simps)
  moreover have "filter isdigit tok = tok"
    using all by (simp add: list_all_iff)
  ultimately show ?thesis
    using assms(2) by (simp split: option.splits)
qed

lemma digit_value_nonneg: "isdigit c \<Longrightarrow> 0 \<le> digit_value c"
  by (simp add: isdigit_def digit_value_def Let_def)

lemma foldl_digits_nonneg:
  "list_all isdigit s \<Longrightarrow> 0 \<le> acc \<Longrightarrow> 0 \<le> foldl (\<lambda>a c. 10 * a + digit_value c) acc s"
  by (induction s arbitrary: acc) (auto simp: digit_value_nonneg)

text \<open>Every character of a string that is not whitespace is in one of its tokens.\<close>

lemma split_from_chars:
  "\<Union>(set ` set (split_from s tok)) = set tok \<union> {c \<in> set s. \<not> isspace c}"
  by (induction s arbitrary: tok) auto

lemma split_covers:
  assumes "c \<in> set s" "\<not> isspace c"
  shows "\<exists>t \<in> set (split s). c \<in> set t"
proof -
  have "c \<in> \<Union>(set ` set (split_from s []))"
    using assms by (simp only: split_from_chars) simp
  then show ?thesis by (auto simp: split_def)
qed

lemma contains_subset: "contains p s \<Longrightarrow> set p \<subseteq> set s"
proof (induction s)
  case Nil
  then show ?case by simp
next
  case (Cons c cs)
  from Cons.prems have "prefix p (c # cs) \<or> contains p cs" by simp
  then show ?case
  proof
    assume "prefix p (c # cs)"
    then show ?thesis by (rule set_mono_prefix)
  next
    assume "contains p cs"
    then have "set p \<subseteq> set cs" by (rule Cons.IH)
    then show ?thesis by auto
  qed
qed

text \<open>Splitting a line of three tokens; \<open>strip\<close> does not change the tokens.\<close>

lemma split_from_whitespace:
  "list_all isspace ws \<Longrightarrow> split_from ws tok = (if tok = [] then [] else [tok])"
  by (induction ws arbitrary: tok) auto

lemma split_from_skip_whitespace:
  "list_all isspace ws \<Longrightarrow> split_from (ws @ s) [] = split_from s []"
  by (induction ws) auto

lemma split_from_token:
  "list_all (\<lambda>c. \<not> isspace c) t \<Longrightarrow> split_from (t @ s) tok = split_from s (tok @ t)"
  by (induction t arbitrary: tok) auto

lemma split_from_end_token:
  assumes "list_all isspace ws" "ws \<noteq> []" "tok \<noteq> []"
  shows "split_from (ws @ s) tok = tok # split_from s []"
proof -
  from assms obtain c ws' where ws: "ws = c # ws'" "isspace c" "list_all isspace ws'"
    by (cases ws) auto
  then show ?thesis using assms(3) by (simp add: split_from_skip_whitespace)
qed

lemma split_from_trailing:
  "list_all isspace ws \<Longrightarrow> split_from (s @ ws) tok = split_from s tok"
  by (induction s arbitrary: tok) (auto simp: split_from_whitespace)

lemma split_strip: "split (strip s) = split s"
proof -
  let ?s' = "dropWhile isspace s"
  have lead: "split_from ?s' [] = split_from s []"
    using split_from_skip_whitespace[of "takeWhile isspace s" ?s']
    by (simp add: list_all_iff) (metis set_takeWhileD)
  have "?s' = rev (dropWhile isspace (rev ?s')) @ rev (takeWhile isspace (rev ?s'))"
    by (metis rev_append rev_rev_ident takeWhile_dropWhile_id)
  moreover have "list_all isspace (rev (takeWhile isspace (rev ?s')))"
    by (auto simp: list_all_iff dest: set_takeWhileD)
  ultimately have "split_from (strip s) [] = split_from ?s' []"
    unfolding strip_def by (metis split_from_trailing)
  with lead show ?thesis by (simp add: split_def)
qed

lemma split_three_tokens:
  assumes ws: "list_all isspace w0" "list_all isspace w1" "list_all isspace w2" "list_all isspace w3"
    and sep: "w1 \<noteq> []" "w2 \<noteq> []"
    and toks: "list_all (\<lambda>c. \<not> isspace c) t0" "list_all (\<lambda>c. \<not> isspace c) t1"
      "list_all (\<lambda>c. \<not> isspace c) t2"
    and ne: "t0 \<noteq> []" "t1 \<noteq> []" "t2 \<noteq> []"
  shows "split (strip (w0 @ t0 @ w1 @ t1 @ w2 @ t2 @ w3)) = [t0, t1, t2]"
proof -
  have "split_from (w0 @ t0 @ w1 @ t1 @ w2 @ t2 @ w3) [] = split_from (w1 @ t1 @ w2 @ t2 @ w3) t0"
    using ws(1) toks(1) by (simp add: split_from_skip_whitespace split_from_token)
  also have "\<dots> = t0 # split_from (w2 @ t2 @ w3) t1"
    using ws(2) sep(1) ne(1) toks(2) by (simp add: split_from_end_token split_from_token)
  also have "\<dots> = t0 # t1 # split_from w3 t2"
    using ws(3) sep(2) ne(2) toks(3) by (simp add: split_from_end_token split_from_token)
  also have "\<dots> = [t0, t1, t2]"
    using ws(4) ne(3) by (simp add: split_from_whitespace)
  finally have "split (w0 @ t0 @ w1 @ t1 @ w2 @ t2 @ w3) = [t0, t1, t2]"
    by (simp only: split_def)
  then show ?thesis by (simp only: split_strip)
qed

text \<open>Indexing the first two axes.\<close>

lemma index2_in_range:
  assumes "0 \<le> i" "i < int (length a)" "0 \<le> j" "j < int (length (a ! nat i))"
  shows "index2 a i j = Inr (a ! nat i ! nat j)"
  using assms by (simp add: index2_def py_index_def)

lemma index2_error: "index2 a i j = Inl e \<Longrightarrow> e = IndexError"
  by (auto simp: index2_def py_index_def split: sum.splits if_splits)

text \<open>\<open>strictly_between\<close> is the open segment.\<close>

lemma strictly_between_iff:
  "strictly_between a v b =
     (\<exists>t. 0 < t \<and> t < 1 \<and> fst v = fst a + t * (fst b - fst a)
                         \<and> snd v = snd a + t * (snd b - snd a) \<and> a \<noteq> b)"
proof
  assume sb: "strictly_between a v b"
  define dx dy wx wy where "dx = fst b - fst a" and "dy = snd b - snd a"
    and "wx = fst v - fst a" and "wy = snd v - snd a"
  define s n where "s = dx * wx + dy * wy" and "n = dx * dx + dy * dy"
  from sb have cr: "dx * wy = dy * wx" and s: "0 < s" "s < n"
    by (simp_all add: strictly_between_def cross_def dot_def dx_def dy_def wx_def wy_def s_def n_def)
  have n: "0 < n" using s by simp
  have "n * wx = s * dx"
  proof -
    have "n * wx - s * dx = dy * (dy * wx - dx * wy)" by (simp add: n_def s_def algebra_simps)
    then show ?thesis using cr by simp
  qed
  then have x: "wx = s / n * dx" using n by (simp add: field_simps)
  have "n * wy = s * dy"
  proof -
    have "n * wy - s * dy = dx * (dx * wy - dy * wx)" by (simp add: n_def s_def algebra_simps)
    then show ?thesis using cr by simp
  qed
  then have y: "wy = s / n * dy" using n by (simp add: field_simps)
  have "a \<noteq> b"
  proof
    assume "a = b"
    then have "n = 0" by (simp add: n_def dx_def dy_def)
    with n show False by simp
  qed
  moreover have "0 < s / n" "s / n < 1" using s n by simp_all
  ultimately show "\<exists>t. 0 < t \<and> t < 1 \<and> fst v = fst a + t * (fst b - fst a)
                         \<and> snd v = snd a + t * (snd b - snd a) \<and> a \<noteq> b"
    using x y by (intro exI[of _ "s / n"]) (simp add: dx_def dy_def wx_def wy_def)
next
  assume "\<exists>t. 0 < t \<and> t < 1 \<and> fst v = fst a + t * (fst b - fst a)
                         \<and> snd v = snd a + t * (snd b - snd a) \<and> a \<noteq> b"
  then obtain t where t: "0 < t" "t < 1"
    and vx: "fst v = fst a + t * (fst b - fst a)"
    and vy: "snd v = snd a + t * (snd b - snd a)" and ne: "a \<noteq> b"
    by blast
  define dx dy where "dx = fst b - fst a" and "dy = snd b - snd a"
  define n where "n = dx * dx + dy * dy"
  have "dx \<noteq> 0 \<or> dy \<noteq> 0" using ne by (auto simp: dx_def dy_def prod_eq_iff)
  then have n: "0 < n" unfolding n_def
    by (metis add_pos_nonneg add_nonneg_pos zero_le_square not_real_square_gt_zero)
  have "cross a b v = 0"
    by (simp add: cross_def vx vy algebra_simps)
  moreover have d: "dot a b v = t * n"
    by (simp add: dot_def vx vy n_def dx_def dy_def algebra_simps)
  moreover have "dot a b b = n"
    by (simp add: dot_def n_def dx_def dy_def)
  moreover have "0 < t * n" "t * n < n" using t n by simp_all
  ultimately show "strictly_between a v b" by (simp add: strictly_between_def)
qed


section \<open>The colormap loader: properties\<close>

subsection \<open>Lines of the file format\<close>

lemma channel_SomeD:
  assumes "channel tok = Some n"
  shows "is_decimal tok" "py_int tok = Inr n" "0 \<le> n" "n \<le> 255"
proof -
  from assms show dec: "is_decimal tok" and "n \<le> 255"
    by (auto simp: channel_def split: if_splits)
  from assms have len: "length tok \<le> int_max_str_digits"
    by (auto simp: channel_def split: if_splits)
  from assms have n: "n = decimal_value tok"
    by (auto simp: channel_def split: if_splits)
  show "py_int tok = Inr n" using dec len n by (simp add: py_int_decimal)
  show "0 \<le> n"
    using dec n by (simp add: is_decimal_def decimal_value_def foldl_digits_nonneg)
qed

lemma triplet_ofD:
  assumes "triplet_of line = Some (r, g, b)"
  obtains t0 t1 t2 where "split (strip line) = [t0, t1, t2]"
    "channel t0 = Some r" "channel t1 = Some g" "channel t2 = Some b"
  using assms by (auto simp: triplet_of_def split: list.splits option.splits)

text \<open>
  Three channels with whitespace between them, and any whitespace before and after,
  make a valid triplet line.
\<close>

lemma is_decimal_token: "is_decimal t \<Longrightarrow> t \<noteq> [] \<and> list_all (\<lambda>c. \<not> isspace c) t"
  by (auto simp: is_decimal_def list_all_iff isdigit_def isspace_def Let_def)

lemma triplet_of_layout:
  assumes "list_all isspace w0" "list_all isspace w1" "list_all isspace w2" "list_all isspace w3"
    and "w1 \<noteq> []" "w2 \<noteq> []"
    and "channel t0 = Some r" "channel t1 = Some g" "channel t2 = Some b"
  shows "triplet_of (w0 @ t0 @ w1 @ t1 @ w2 @ t2 @ w3) = Some (r, g, b)"
proof -
  have "is_decimal t0" "is_decimal t1" "is_decimal t2"
    using assms(7-9) by (auto simp: channel_def split: if_splits)
  then have "split (strip (w0 @ t0 @ w1 @ t1 @ w2 @ t2 @ w3)) = [t0, t1, t2]"
    using assms(1-6) by (intro split_three_tokens) (simp_all add: is_decimal_token)
  then show ?thesis using assms(7-9) by (simp add: triplet_of_def)
qed

text \<open>A valid triplet line is neither empty, nor a comment, nor the header.\<close>

lemma digit_tokens_not_skippable:
  assumes "split (strip line) \<noteq> []"
    and toks: "\<And>u. u \<in> set (split (strip line)) \<Longrightarrow> list_all isdigit u"
  shows "\<not> skippable_line line"
proof -
  have chars: "isspace c \<or> isdigit c" if "c \<in> set (strip line)" for c
  proof (cases "isspace c")
    case False
    with that obtain u where "u \<in> set (split (strip line))" "c \<in> set u"
      using split_covers by blast
    then show ?thesis using toks by (auto simp: list_all_iff)
  qed simp
  have "strip line \<noteq> []"
    using assms(1) by (auto simp: split_def)
  moreover have "\<not> startswith (strip line) ''#''"
  proof
    assume "startswith (strip line) ''#''"
    then have "CHR ''#'' \<in> set (strip line)"
      by (auto simp: startswith_def dest: set_mono_prefix)
    from chars[OF this] show False by (simp add: isspace_def isdigit_def)
  qed
  moreover have "\<not> contains ''ncolors'' (strip line)"
  proof
    assume "contains ''ncolors'' (strip line)"
    then have "CHR ''n'' \<in> set (strip line)"
      by (auto dest: contains_subset)
    from chars[OF this] show False by (simp add: isspace_def isdigit_def)
  qed
  ultimately show ?thesis by (simp add: skippable_line_def)
qed

lemma triplet_not_skippable:
  assumes "triplet_of line = Some t"
  shows "\<not> skippable_line line"
proof -
  obtain r g b where t: "t = (r, g, b)" by (cases t)
  from assms t obtain t0 t1 t2 where sp: "split (strip line) = [t0, t1, t2]"
    and ch: "channel t0 = Some r" "channel t1 = Some g" "channel t2 = Some b"
    by (auto elim: triplet_ofD)
  have "list_all isdigit u" if "u \<in> set (split (strip line))" for u
    using that sp ch by (auto dest!: channel_SomeD(1) simp: is_decimal_def)
  moreover have "split (strip line) \<noteq> []" using sp by simp
  ultimately show ?thesis by (intro digit_tokens_not_skippable)
qed

lemma normalized_in_range:
  assumes "0 \<le> r" "r \<le> 255" "0 \<le> g" "g \<le> 255" "0 \<le> b" "b \<le> 255"
  shows "normalized r g b = Inr (color_of (r, g, b))"
  using assms by (simp add: normalized_def py_truediv_255_small color_of_def)

lemma normalized_Inr: "normalized r g b = Inr c \<Longrightarrow> c = color_of (r, g, b)"
  by (auto simp: normalized_def py_truediv_def color_of_def split: sum.splits if_splits)

lemma in_unit_cube_color_of:
  "in_unit_cube (color_of (r, g, b)) =
     (0 \<le> r \<and> r \<le> 255 \<and> 0 \<le> g \<and> g \<le> 255 \<and> 0 \<le> b \<and> b \<le> 255)"
  by (auto simp: in_unit_cube_def color_of_def)

lemma triplet_in_unit_cube: "triplet_of line = Some t \<Longrightarrow> in_unit_cube (color_of t)"
proof -
  assume a: "triplet_of line = Some t"
  obtain r g b where t: "t = (r, g, b)" by (cases t)
  from a t obtain t0 t1 t2 where
    ch: "channel t0 = Some r" "channel t1 = Some g" "channel t2 = Some b"
    by (auto elim: triplet_ofD)
  have "0 \<le> r" "r \<le> 255" "0 \<le> g" "g \<le> 255" "0 \<le> b" "b \<le> 255"
    using ch by (auto dest: channel_SomeD(3,4))
  then show ?thesis
    using t by (simp add: in_unit_cube_def color_of_def)
qed

subsection \<open>The loop body and the loop\<close>

lemma loop_body_skippable: "skippable_line line \<Longrightarrow> loop_body line colors = Inr colors"
  by (simp add: loop_body_def skippable_line_def)

lemma loop_body_triplet:
  assumes "triplet_of line = Some (r, g, b)"
  shows "loop_body line colors = Inr (colors @ [color_of (r, g, b)])"
proof -
  from assms obtain t0 t1 t2 where sp: "split (strip line) = [t0, t1, t2]"
    and ch: "channel t0 = Some r" "channel t1 = Some g" "channel t2 = Some b"
    by (rule triplet_ofD)
  have ns: "\<not> (strip line = [] \<or> startswith (strip line) ''#'' \<or> contains ''ncolors'' (strip line))"
    using triplet_not_skippable[OF assms] by (simp add: skippable_line_def)
  have ints: "map_int3 t0 t1 t2 = Inr (r, g, b)"
    using ch by (simp add: map_int3_def channel_SomeD(2))
  have "normalized r g b = Inr (color_of (r, g, b))"
    using ch by (intro normalized_in_range) (auto dest: channel_SomeD)
  then show ?thesis
    using ns sp ints by (simp add: loop_body_def)
qed


lemma map_int3_error: "map_int3 p0 p1 p2 = Inl e \<Longrightarrow> e = ValueError"
  by (auto simp: map_int3_def split: sum.splits dest: py_int_error)

lemma normalized_error: "normalized r g b = Inl e \<Longrightarrow> e = OverflowError"
  by (auto simp: normalized_def split: sum.splits dest: py_truediv_255_error)

lemma loop_body_error: "loop_body line colors = Inl e \<Longrightarrow> e = ValueError \<or> e = OverflowError"
  by (auto simp: loop_body_def Let_def split: if_splits list.splits sum.splits prod.splits
      dest: map_int3_error normalized_error)

lemma for_lines_well_formed:
  "\<forall>line \<in> set ls. well_formed_line line \<Longrightarrow>
     for_lines ls colors = Inr (colors @ map color_of (List.map_filter triplet_of ls))"
proof (induction ls arbitrary: colors)
  case Nil
  then show ?case by (simp add:)
next
  case (Cons l ls)
  show ?case
  proof (cases "triplet_of l")
    case None
    then have "skippable_line l"
      using Cons.prems by (simp add: well_formed_line_def valid_triplet_line_def)
    then show ?thesis
      using None Cons by (simp add: loop_body_skippable)
  next
    case (Some t)
    obtain r g b where "t = (r, g, b)" by (cases t)
    then show ?thesis
      using Some Cons by (simp add: loop_body_triplet)
  qed
qed



lemma for_lines_error: "for_lines ls colors = Inl e \<Longrightarrow> e = ValueError \<or> e = OverflowError"
proof (induction ls arbitrary: colors)
  case Nil
  then show ?case by simp
next
  case (Cons l ls)
  then show ?case by (auto split: sum.splits dest: loop_body_error)
qed

lemma map_filter_set: "y \<in> set (List.map_filter f xs) \<Longrightarrow> \<exists>x \<in> set xs. f x = Some y"
  by (auto simp: map_filter_def)

lemma length_map_filter:
  "length (List.map_filter f xs) = length (filter (\<lambda>x. f x \<noteq> None) xs)"
  by (simp add: map_filter_def)

lemma path_join_plain:
  assumes "base_path \<noteq> []" "\<not> endswith base_path ''/''" "\<not> startswith name ''/''"
  shows "path_join base_path (name @ ''.rgb'') = base_path @ ''/'' @ name @ ''.rgb''"
proof -
  have "\<not> startswith (name @ ''.rgb'') ''/''"
    using assms(3) by (cases name) (simp_all add: startswith_def)
  then show ?thesis using assms(1,2) by (simp add: path_join_def)
qed

subsection \<open>Evaluation of the examples\<close>

lemmas string_eval =
  text_lines_def strip_def isspace_def startswith_def split_def isdigit_def digit_value_def
  path_join_def endswith_def suffix_to_prefix default_base_path_def

lemmas format_eval =
  is_decimal_def decimal_value_def channel_def int_max_str_digits_def triplet_of_def
  skippable_line_def
  well_formed_line_def valid_triplet_line_def color_of_def

lemmas loader_eval =
  loop_body_def map_int3_def py_int_def int_max_str_digits_def normalized_def
  py_truediv_255_small

lemma demo_path: "path_join default_base_path (''demo'' @ ''.rgb'') = ''plot_utils/colormaps/demo.rgb''"
  by (simp add: string_eval)

lemma demo_lines:
  "text_lines demo_text =
     [''# demo\<newline>'', ''ncolors 2\<newline>'', ''255 0 128\<newline>'', ''\<newline>'', ''0 64 255\<newline>'']"
  by (simp add: demo_text_def text_lines_def)

lemma demo_triplets:
  "triplet_of ''# demo\<newline>'' = None"
  "triplet_of ''ncolors 2\<newline>'' = None"
  "triplet_of ''255 0 128\<newline>'' = Some (255, 0, 128)"
  "triplet_of ''\<newline>'' = None"
  "triplet_of ''0 64 255\<newline>'' = Some (0, 64, 255)"
  by (simp_all add: string_eval format_eval)

lemma demo_skippable:
  "skippable_line ''# demo\<newline>''"
  "skippable_line ''ncolors 2\<newline>''"
  "skippable_line ''\<newline>''"
  by (simp_all add: string_eval format_eval)

lemma header_only_path:
  "path_join default_base_path (''header'' @ ''.rgb'') = ''plot_utils/colormaps/header.rgb''"
  by (simp add: string_eval)



lemma out_of_range_path:
  "path_join default_base_path (''bad'' @ ''.rgb'') = ''plot_utils/colormaps/bad.rgb''"
  by (simp add: string_eval)

lemma out_of_range_lines:
  "text_lines out_of_range_text = [''300 0 0\<newline>'', ''-1 0 0\<newline>'']"
  by (simp add: out_of_range_text_def text_lines_def)

lemma out_of_range_body:
  "loop_body ''300 0 0\<newline>'' colors = Inr (colors @ [(300 / 255, 0, 0)])"
  "loop_body ''-1 0 0\<newline>'' colors = Inr (colors @ [(- 1 / 255, 0, 0)])"
  by (simp_all add: loader_eval string_eval)

lemma out_of_range_load:
  "load_ncl_rgb_colors out_of_range_fs ''bad'' default_base_path =
     Inr [(300 / 255, 0, 0), (- 1 / 255, 0, 0)]"
  by (simp only: load_ncl_rgb_colors_def out_of_range_path Let_def)
     (simp add: out_of_range_fs_def out_of_range_lines out_of_range_body)

subsection \<open>Well-formed files\<close>

text \<open>A text without line terminators, followed by one, is one line.\<close>

lemma lines_from_one_line:
  assumes "\<And>c. c \<in> set s \<Longrightarrow> c \<noteq> CHR 0x0A \<and> c \<noteq> CHR 0x0D"
  shows "lines_from (s @ [CHR 0x0A]) cur = [cur @ s @ [CHR 0x0A]]"
  using assms by (induction s arbitrary: cur) simp_all

lemma long_zero_token_decimal: "is_decimal long_zero_token"
  by (simp add: long_zero_token_def is_decimal_def list_all_iff isdigit_def)

lemma long_zero_token_value: "decimal_value long_zero_token = 0"
proof -
  have "foldl (\<lambda>a c. 10 * a + digit_value c) 0 (replicate n CHR ''0'') = 0" for n
    by (induction n) (simp_all add: digit_value_def)
  then show ?thesis by (simp only: decimal_value_def long_zero_token_def)
qed

lemma long_zero_lines: "text_lines long_zero_text = [long_zero_text]"
proof -
  have "lines_from ((long_zero_token @ '' 0 0'') @ [CHR 0x0A]) [] =
      [[] @ (long_zero_token @ '' 0 0'') @ [CHR 0x0A]]"
    by (rule lines_from_one_line) (auto simp: long_zero_token_def)
  then show ?thesis
    by (simp add: text_lines_def long_zero_text_def del: lines_from.simps)
qed

lemma long_zero_tokens: "split (strip long_zero_text) = [long_zero_token, ''0'', ''0'']"
proof -
  have tok: "long_zero_token \<noteq> []" "list_all (\<lambda>c. \<not> isspace c) long_zero_token"
    using is_decimal_token[OF long_zero_token_decimal] by simp_all
  have "split (strip ([] @ long_zero_token @ '' '' @ ''0'' @ '' '' @ ''0'' @ ''\<newline>'')) =
      [long_zero_token, ''0'', ''0'']"
    using tok by (intro split_three_tokens) (simp_all add: isspace_def)
  then show ?thesis by (simp add: long_zero_text_def)
qed

lemma long_zero_body: "loop_body long_zero_text colors = Inl ValueError"
proof -
  have "list_all isdigit u" if "u \<in> set (split (strip long_zero_text))" for u
    using that long_zero_token_decimal
    by (auto simp: long_zero_tokens is_decimal_def isdigit_def)
  then have "\<not> skippable_line long_zero_text"
    by (intro digit_tokens_not_skippable) (simp_all add: long_zero_tokens)
  moreover have "py_int long_zero_token = Inl ValueError"
    by (intro py_int_too_long long_zero_token_decimal)
       (simp add: long_zero_token_def int_max_str_digits_def)
  ultimately show ?thesis
    by (simp add: loop_body_def skippable_line_def long_zero_tokens map_int3_def)
qed

lemma long_zero_path:
  "path_join default_base_path (''long'' @ ''.rgb'') = ''plot_utils/colormaps/long.rgb''"
  by (simp add: string_eval)

text \<open>
  Claim C1, as stated, fails on the file whose only line is 4301 zeros followed by \<open>0\<close>
  and \<open>0\<close>: the line has exactly three decimal integers of the value 0, and \<open>int\<close>
  raises \<open>ValueError\<close> on the first, which has more digits than \<open>int\<close> accepts.
\<close>

theorem load_colors_counterexample:
  "text_lines long_zero_text = [long_zero_text]
   \<and> split (strip long_zero_text) = [long_zero_token, ''0'', ''0'']
   \<and> is_decimal long_zero_token \<and> decimal_value long_zero_token = 0
   \<and> is_decimal ''0'' \<and> decimal_value ''0'' = 0
   \<and> long_zero_fs (path_join default_base_path (''long'' @ ''.rgb'')) =
       Some (RegularFile long_zero_text)
   \<and> load_ncl_rgb_colors long_zero_fs ''long'' default_base_path = Inl ValueError"
proof -
  have "load_ncl_rgb_colors long_zero_fs ''long'' default_base_path = Inl ValueError"
    by (simp only: load_ncl_rgb_colors_def long_zero_path Let_def)
       (simp add: long_zero_fs_def long_zero_lines long_zero_body)
  moreover have "long_zero_fs (path_join default_base_path (''long'' @ ''.rgb'')) =
      Some (RegularFile long_zero_text)"
    by (simp only: long_zero_path) (simp add: long_zero_fs_def)
  moreover have "is_decimal ''0''" "decimal_value ''0'' = 0"
    by (simp_all add: is_decimal_def decimal_value_def isdigit_def digit_value_def)
  ultimately show ?thesis
    using long_zero_lines long_zero_tokens long_zero_token_decimal long_zero_token_value
    by simp
qed

text \<open>
  Claim C1, amended: the integers of a valid triplet line are written with at most 4300
  digits each. For a well-formed colormap file, \<open>load_ncl_rgb_colors\<close> returns the colours of
  the valid triplet lines in file order: as many as there are valid triplet lines, the
  colour of a line with the integers \<open>r\<close>, \<open>g\<close>, \<open>b\<close> being \<open>(r/255, g/255, b/255)\<close>, every
  component from 0 to 1; without a valid triplet line the result is empty.
\<close>

theorem load_colors_well_formed_file:
  assumes "fs (path_join base_path (name @ ''.rgb'')) = Some (RegularFile text)"
    and "\<forall>line \<in> set (text_lines text). well_formed_line line"
  shows "\<exists>colors. load_ncl_rgb_colors fs name base_path = Inr colors
           \<and> colors = map color_of (List.map_filter triplet_of (text_lines text))
           \<and> length colors = length (filter valid_triplet_line (text_lines text))
           \<and> list_all in_unit_cube colors
           \<and> (filter valid_triplet_line (text_lines text) = [] \<longrightarrow> colors = [])"
proof -
  let ?ls = "text_lines text"
  let ?cs = "map color_of (List.map_filter triplet_of ?ls)"
  have "load_ncl_rgb_colors fs name base_path = for_lines ?ls []"
    using assms(1) by (simp add: load_ncl_rgb_colors_def)
  then have res: "load_ncl_rgb_colors fs name base_path = Inr ?cs"
    using for_lines_well_formed[OF assms(2), of "[]"] by simp
  have "valid_triplet_line = (\<lambda>l. triplet_of l \<noteq> None)"
    by (rule ext) (simp only: valid_triplet_line_def)
  then have len: "length ?cs = length (filter valid_triplet_line ?ls)"
    by (simp only: length_map length_map_filter)
  have cube: "list_all in_unit_cube ?cs"
    by (auto simp: list_all_iff dest!: map_filter_set intro: triplet_in_unit_cube)
  from res len cube show ?thesis by auto
qed

text \<open>The file \<open>demo.rgb\<close>: the line \<open>255 0 128\<close> gives \<open>(1, 0, 128/255)\<close>.\<close>

theorem load_colors_well_formed_file_witness:
  "demo_fs (path_join default_base_path (''demo'' @ ''.rgb'')) = Some (RegularFile demo_text)
   \<and> list_all well_formed_line (text_lines demo_text)
   \<and> load_ncl_rgb_colors demo_fs ''demo'' default_base_path =
       Inr [(1, 0, 128 / 255), (0, 64 / 255, 1)]"
proof -
  have ex: "demo_fs (path_join default_base_path (''demo'' @ ''.rgb'')) =
      Some (RegularFile demo_text)"
    by (simp only: demo_path) (simp add: demo_fs_def)
  have wf: "\<forall>line \<in> set (text_lines demo_text). well_formed_line line"
    by (simp add: demo_lines well_formed_line_def valid_triplet_line_def demo_triplets
        demo_skippable)
  from load_colors_well_formed_file[of demo_fs default_base_path "''demo''" demo_text, OF ex wf]
  have "load_ncl_rgb_colors demo_fs ''demo'' default_base_path =
          Inr (map color_of (List.map_filter triplet_of (text_lines demo_text)))"
    by blast
  then have "load_ncl_rgb_colors demo_fs ''demo'' default_base_path =
      Inr [(1, 0, 128 / 255), (0, 64 / 255, 1)]"
    by (simp add: demo_lines demo_triplets color_of_def)
  with ex wf show ?thesis by (simp add: list_all_iff)
qed

subsection \<open>The missing file\<close>

text \<open>
  Claim C4. \<open>load_ncl_rgb_colors\<close> raises \<open>FileNotFoundError\<close> if and only if the joined
  path names nothing in the file system, and then it returns no colours. The joined
  path is \<open>base_path/name.rgb\<close> when \<open>base_path\<close> is not empty and does not end with a
  slash and \<open>name\<close> does not start with one.
\<close>

theorem file_not_found_iff:
  "((load_ncl_rgb_colors fs name base_path = Inl FileNotFoundError) =
      (fs (path_join base_path (name @ ''.rgb'')) = None))
   \<and> (fs (path_join base_path (name @ ''.rgb'')) = None \<longrightarrow>
        (\<forall>colors. load_ncl_rgb_colors fs name base_path \<noteq> Inr colors))
   \<and> (base_path \<noteq> [] \<and> \<not> endswith base_path ''/'' \<and> \<not> startswith name ''/'' \<longrightarrow>
        path_join base_path (name @ ''.rgb'') = base_path @ ''/'' @ name @ ''.rgb'')"
proof -
  have "for_lines ls [] \<noteq> Inl FileNotFoundError" for ls
    using for_lines_error[of ls "[]" FileNotFoundError] by auto
  then have "(load_ncl_rgb_colors fs name base_path = Inl FileNotFoundError) =
      (fs (path_join base_path (name @ ''.rgb'')) = None)"
    by (simp add: load_ncl_rgb_colors_def split: option.splits node.splits)
  then show ?thesis by (auto simp: path_join_plain)
qed

theorem file_not_found_iff_witness:
  "empty_fs (path_join default_base_path (''missing'' @ ''.rgb'')) = None
   \<and> load_ncl_rgb_colors empty_fs ''missing'' default_base_path = Inl FileNotFoundError
   \<and> path_join default_base_path (''missing'' @ ''.rgb'') = ''plot_utils/colormaps/missing.rgb''
   \<and> load_ncl_rgb_colors header_only_fs ''header'' default_base_path \<noteq> Inl FileNotFoundError"
proof -
  have none: "empty_fs (path_join default_base_path (''missing'' @ ''.rgb'')) = None"
    by (simp add: empty_fs_def)
  have some: "header_only_fs (path_join default_base_path (''header'' @ ''.rgb'')) \<noteq> None"
    by (simp only: header_only_path) (simp add: header_only_fs_def)
  have plain: "default_base_path \<noteq> [] \<and> \<not> endswith default_base_path ''/''
       \<and> \<not> startswith ''missing'' ''/''"
    by (simp add: default_base_path_def startswith_def endswith_def suffix_to_prefix)
  from file_not_found_iff[of empty_fs "''missing''" default_base_path] none plain
  have a: "load_ncl_rgb_colors empty_fs ''missing'' default_base_path = Inl FileNotFoundError"
    and b: "path_join default_base_path (''missing'' @ ''.rgb'') =
         default_base_path @ ''/'' @ ''missing'' @ ''.rgb''"
    by blast+
  from file_not_found_iff[of header_only_fs "''header''" default_base_path] some
  have c: "load_ncl_rgb_colors header_only_fs ''header'' default_base_path \<noteq> Inl FileNotFoundError"
    by blast
  from b have "path_join default_base_path (''missing'' @ ''.rgb'') = ''plot_utils/colormaps/missing.rgb''"
    by (simp add: default_base_path_def)
  with none a c show ?thesis by blast
qed

subsection \<open>Skipped lines\<close>



subsection \<open>Channels out of range\<close>

text \<open>
  Claim C9. The channel range is not checked: the file with the lines \<open>300 0 0\<close> and
  \<open>-1 0 0\<close> is loaded without an error and gives a component above 1 and one below 0.
  A colour that is computed has its components from 0 to 1 exactly when the three
  integers are from 0 to 255.
\<close>

theorem channel_range_not_validated:
  "load_ncl_rgb_colors out_of_range_fs ''bad'' default_base_path =
     Inr [(300 / 255, 0, 0), (- 1 / 255, 0, 0)]
   \<and> \<not> in_unit_cube (300 / 255, 0, 0)
   \<and> \<not> in_unit_cube (- 1 / 255, 0, 0)
   \<and> (\<forall>r g b c. normalized r g b = Inr c \<longrightarrow>
         c = (real_of_int r / 255, real_of_int g / 255, real_of_int b / 255)
         \<and> in_unit_cube c =
             (0 \<le> r \<and> r \<le> 255 \<and> 0 \<le> g \<and> g \<le> 255 \<and> 0 \<le> b \<and> b \<le> 255))"
proof -
  have "in_unit_cube c =
          (0 \<le> r \<and> r \<le> 255 \<and> 0 \<le> g \<and> g \<le> 255 \<and> 0 \<le> b \<and> b \<le> 255)"
    and "c = (real_of_int r / 255, real_of_int g / 255, real_of_int b / 255)"
    if "normalized r g b = Inr c" for r g b c
    using normalized_Inr[OF that] by (simp_all only: in_unit_cube_color_of) (simp add: color_of_def)
  moreover have "\<not> in_unit_cube (300 / 255, 0, 0)" "\<not> in_unit_cube (- 1 / 255, 0, 0)"
    by (simp_all add: in_unit_cube_def)
  ultimately show ?thesis using out_of_range_load by blast
qed

theorem channel_range_not_validated_witness:
  "normalized 300 0 0 = Inr (300 / 255, 0, 0)
   \<and> in_unit_cube (300 / 255, 0, 0) = False
   \<and> normalized 255 0 128 = Inr (1, 0, 128 / 255)
   \<and> in_unit_cube (1, 0, 128 / 255) = True"
proof -
  have a: "normalized 300 0 0 = Inr (300 / 255, 0, 0)"
    and b: "normalized 255 0 128 = Inr (1, 0, 128 / 255)"
    by (simp_all add: normalized_def py_truediv_255_small)
  from channel_range_not_validated a b
  have "in_unit_cube (300 / 255, 0, 0) =
          ((0::int) \<le> 300 \<and> (300::int) \<le> 255 \<and> (0::int) \<le> 0 \<and> (0::int) \<le> 255 \<and> (0::int) \<le> 0 \<and> (0::int) \<le> 255)"
    and "in_unit_cube (1, 0, 128 / 255) =
          ((0::int) \<le> 255 \<and> (255::int) \<le> 255 \<and> (0::int) \<le> 0 \<and> (0::int) \<le> 255 \<and> (0::int) \<le> 128 \<and> (128::int) \<le> 255)"
    by blast+
  with a b show ?thesis by simp
qed

section \<open>The hull of the valid grid points: properties\<close>

subsection \<open>Selecting with the mask\<close>

lemma shape_not_isnan: "shape (not_isnan d) = shape d"
  by (simp add: shape_def not_isnan_def)

lemma concat_not_isnan: "concat (not_isnan d) = map (\<lambda>v. \<not> isnan v) (concat d)"
  by (simp add: not_isnan_def map_concat)

lemma length_concat_shape: "shape a = shape d \<Longrightarrow> length (concat a) = length (concat d)"
  by (simp add: shape_def length_concat)

lemma length_select:
  "length xs = length ys \<Longrightarrow>
     length (filter snd (zip xs (map P ys))) = length (filter P ys)"
  by (induction xs ys rule: list_induct2) simp_all

lemma row_points:
  assumes "length ar = length dr" "length br = length dr"
  shows "zip (map fst (filter snd (zip ar (map (\<lambda>v. \<not> isnan v) dr))))
             (map fst (filter snd (zip br (map (\<lambda>v. \<not> isnan v) dr)))) =
         map (\<lambda>x. (ar ! x, br ! x)) (filter (\<lambda>x. \<not> isnan (dr ! x)) [0..<length dr])"
proof -
  from assms have "length ar = length br" "length br = length dr" by simp_all
  then show ?thesis
  proof (induction ar br dr rule: list_induct3)
    case Nil
    show ?case by simp
  next
    case (Cons a ar b br d dr)
    have "[0..<Suc (length dr)] = 0 # [Suc 0..<Suc (length dr)]"
      by (subst upt_rec) simp
    then have "[0..<length (d # dr)] = 0 # map Suc [0..<length dr]"
      by (simp only: map_Suc_upt list.size) simp
    then show ?case using Cons by (simp add: filter_map o_def del: upt_Suc)
  qed
qed

lemma select_rows:
  assumes "map length lons = map length d" "map length lats = map length d"
  shows "zip (map fst (filter snd (zip (concat lons) (concat (not_isnan d)))))
             (map fst (filter snd (zip (concat lats) (concat (not_isnan d))))) =
         concat (map (\<lambda>(dr, ar, br). row_valid_points dr ar br) (zip d (zip lons lats)))"
  using assms
proof (induction d arbitrary: lons lats)
  case Nil
  then show ?case by (simp add: not_isnan_def)
next
  case (Cons dr d)
  from Cons.prems obtain ar lons' br lats' where
    eq: "lons = ar # lons'" "lats = br # lats'"
    and len: "length ar = length dr" "length br = length dr"
    and rest: "map length lons' = map length d" "map length lats' = map length d"
    by (cases lons; cases lats) auto
  let ?m = "map (\<lambda>v. \<not> isnan v) dr"
  let ?M = "concat (not_isnan d)"
  have nn: "concat (not_isnan (dr # d)) = ?m @ ?M"
    by (simp add: not_isnan_def)
  have l1: "length (map fst (filter snd (zip ar ?m))) = length (map fst (filter snd (zip br ?m)))"
    using len by (simp add: length_select)
  have "zip (map fst (filter snd (zip (concat lons) (concat (not_isnan (dr # d))))))
            (map fst (filter snd (zip (concat lats) (concat (not_isnan (dr # d)))))) =
        zip (map fst (filter snd (zip ar ?m)) @ map fst (filter snd (zip (concat lons') ?M)))
            (map fst (filter snd (zip br ?m)) @ map fst (filter snd (zip (concat lats') ?M)))"
    using len by (simp add: eq nn)
  also have "\<dots> = zip (map fst (filter snd (zip ar ?m))) (map fst (filter snd (zip br ?m)))
        @ zip (map fst (filter snd (zip (concat lons') ?M)))
              (map fst (filter snd (zip (concat lats') ?M)))"
    using l1 by (rule zip_append)
  also have "\<dots> = row_valid_points dr ar br
        @ concat (map (\<lambda>(dr, ar, br). row_valid_points dr ar br) (zip d (zip lons' lats')))"
  proof -
    have "row_valid_points dr ar br =
        zip (map fst (filter snd (zip ar ?m))) (map fst (filter snd (zip br ?m)))"
      by (simp add: row_valid_points_def row_points[OF len])
    then show ?thesis by (simp only: Cons.IH[OF rest])
  qed
  finally show ?case by (simp only: eq zip_Cons_Cons list.map concat.simps prod.case)
qed

lemma rows_by_index:
  assumes "length lons = length d" "length lats = length d"
  shows "map f (zip d (zip lons lats)) = map (\<lambda>y. f (d ! y, lons ! y, lats ! y)) [0..<length d]"
  using assms by (intro nth_equalityI) simp_all

lemma select_valid_points:
  assumes "shape lons = shape d" "shape lats = shape d"
  shows "zip (map fst (filter snd (zip (concat lons) (concat (not_isnan d)))))
             (map fst (filter snd (zip (concat lats) (concat (not_isnan d))))) =
         valid_points d lons lats"
proof -
  from assms have ml: "map length lons = map length d" "map length lats = map length d"
    by (simp_all add: shape_def)
  then have "length lons = length d" "length lats = length d"
    by (auto dest: map_eq_imp_length_eq)
  then have "map (\<lambda>(dr, ar, br). row_valid_points dr ar br) (zip d (zip lons lats)) =
      map (\<lambda>y. row_valid_points (d ! y) (lons ! y) (lats ! y)) [0..<length d]"
    by (simp add: rows_by_index)
  then show ?thesis
    using select_rows[OF ml] by (simp only: valid_points_def)
qed

lemma length_select_lat:
  assumes "shape lats = shape d"
  shows "length (map fst (filter snd (zip (concat lats) (concat (not_isnan d))))) = valid_count d"
  using length_concat_shape[OF assms]
  by (simp add: concat_not_isnan length_select valid_count_def)

lemma row_count: "length (filter (\<lambda>x. P (dr ! x)) [0..<length dr]) = length (filter P dr)"
proof -
  have "filter P dr = filter P (map ((!) dr) [0..<length dr])"
    by (simp only: map_nth)
  also have "\<dots> = map ((!) dr) (filter (P \<circ> (!) dr) [0..<length dr])"
    by (rule filter_map)
  finally have "length (filter P dr) = length (filter (P \<circ> (!) dr) [0..<length dr])"
    by simp
  then show ?thesis by (simp add: o_def)
qed

lemma length_valid_points: "length (valid_points d lons lats) = valid_count d"
proof -
  let ?g = "\<lambda>r. length (filter (\<lambda>v. \<not> isnan v) r)"
  have "length (valid_points d lons lats) = sum_list (map (\<lambda>y. ?g (d ! y)) [0..<length d])"
    by (simp add: valid_points_def row_valid_points_def length_concat o_def
        row_count[of "\<lambda>v. \<not> isnan v"])
  also have "map (\<lambda>y. ?g (d ! y)) [0..<length d] = map ?g (map ((!) d) [0..<length d])"
    by (simp add: o_def)
  also have "\<dots> = map ?g d"
    by (simp only: map_nth)
  also have "sum_list (map ?g d) = valid_count d"
    by (simp add: valid_count_def filter_concat length_concat o_def)
  finally show ?thesis .
qed

lemma set_valid_points:
  "set (valid_points d lons lats) =
     {(lons ! y ! x, lats ! y ! x) | y x. y < length d \<and> x < length (d ! y) \<and> \<not> isnan (d ! y ! x)}"
proof -
  have "set (valid_points d lons lats) =
      (\<Union>y \<in> {..<length d}. (\<lambda>x. (lons ! y ! x, lats ! y ! x)) `
         {x. x < length (d ! y) \<and> \<not> isnan (d ! y ! x)})"
    by (auto simp: valid_points_def row_valid_points_def)
  also have "\<dots> = {(lons ! y ! x, lats ! y ! x) | y x.
      y < length d \<and> x < length (d ! y) \<and> \<not> isnan (d ! y ! x)}"
    by blast
  finally show ?thesis .
qed

text \<open>The result of the function on an aligned input.\<close>

lemma frame_result:
  assumes "index2 (data_values da) (fst level_idx) (snd level_idx) = Inr d" "aligned da d"
  shows "get_valid_data_frame convex_hull da level_idx =
           (if valid_count d < 3 then Inr None
            else Inr (Some (convex_hull (valid_points d (lon da) (lat da)))), da)"
proof -
  from assms(2) have sh: "shape (lon da) = shape d" "shape (lat da) = shape d"
    by (simp_all add: aligned_def)
  show ?thesis
    using assms(1) sh select_valid_points[OF sh] length_select_lat[OF sh(2)]
    by (simp add: get_valid_data_frame_def mask_select_def shape_not_isnan)
qed

text \<open>On any other input the function raises \<open>IndexError\<close>.\<close>

lemma frame_index_error:
  assumes "index2 (data_values da) (fst level_idx) (snd level_idx) = Inl e"
  shows "get_valid_data_frame convex_hull da level_idx = (Inl IndexError, da)"
  using assms index2_error[OF assms] by (simp add: get_valid_data_frame_def)

lemma frame_misaligned:
  assumes "index2 (data_values da) (fst level_idx) (snd level_idx) = Inr d"
    and "\<not> aligned da d"
  shows "get_valid_data_frame convex_hull da level_idx = (Inl IndexError, da)"
proof (cases "shape (lat da) = shape d")
  case True
  with assms(2) have "shape (lon da) \<noteq> shape d" by (simp add: aligned_def)
  with True assms(1) show ?thesis
    by (simp add: get_valid_data_frame_def mask_select_def shape_not_isnan)
next
  case False
  with assms(1) show ?thesis
    by (simp add: get_valid_data_frame_def mask_select_def shape_not_isnan)
qed

subsection \<open>Full rectangular grids\<close>





subsection \<open>The hull to compute with\<close>



subsection \<open>Evaluation of the examples\<close>

lemma grid_with_gaps_slice:
  "index2 (data_values grid_with_gaps) 0 0 =
     Inr [[Finite 1, NaN, Finite 2], [NaN, Finite 3, Finite 4]]"
  by (simp add: grid_with_gaps_def index2_def py_index_def)

lemma grid_with_gaps_aligned:
  "aligned grid_with_gaps [[Finite 1, NaN, Finite 2], [NaN, Finite 3, Finite 4]]"
  by (simp add: grid_with_gaps_def aligned_def shape_def)

lemma grid_with_gaps_points:
  "valid_points [[Finite 1, NaN, Finite 2], [NaN, Finite 3, Finite 4]]
     (lon grid_with_gaps) (lat grid_with_gaps) = [(0, 0), (2, 0), (1, 1), (2, 1)]"
  by code_simp

lemma grid_with_gaps_hull:
  "reference_hull [(0, 0), (2, 0), (1, 1), (2, 1)] = Polygon [(0, 0), (2, 0), (1, 1), (2, 1)]"
  by code_simp

lemma grid_two_valid_slice:
  "index2 (data_values grid_two_valid) 0 0 = Inr [[Finite 1, NaN, NaN], [NaN, NaN, Finite 4]]"
  by (simp add: grid_two_valid_def index2_def py_index_def)

lemma grid_two_valid_aligned:
  "aligned grid_two_valid [[Finite 1, NaN, NaN], [NaN, NaN, Finite 4]]"
  by (simp add: grid_two_valid_def aligned_def shape_def)

lemma grid_two_valid_count: "valid_count [[Finite 1, NaN, NaN], [NaN, NaN, Finite 4]] = 2"
  by (simp add: valid_count_def)

lemma grid_collinear_slice:
  "index2 (data_values grid_collinear) 0 0 = Inr [[Finite 1, Finite 2, Finite 3]]"
  by (simp add: grid_collinear_def index2_def py_index_def)

lemma grid_collinear_aligned: "aligned grid_collinear [[Finite 1, Finite 2, Finite 3]]"
  by (simp add: grid_collinear_def aligned_def shape_def)

lemma grid_collinear_count: "valid_count [[Finite 1, Finite 2, Finite 3]] = 3"
  by (simp add: valid_count_def)

lemma grid_collinear_result:
  "fst (get_valid_data_frame reference_hull grid_collinear (0, 0)) =
     Inr (Some (LineString [(0, 0), (2, 0)]))"
  by code_simp



subsection \<open>The hull of the valid points\<close>

text \<open>
  Claim C2. On a data array with aligned coordinate arrays, \<open>get_valid_data_frame\<close> takes
  the slice \<open>data_array[level_idx[0], level_idx[1]]\<close>, forms the points \<open>(lon, lat)\<close> at
  exactly the positions where the slice is not NaN, and returns the convex hull of
  these points when there are at least three of them.
\<close>

theorem hull_of_valid_points:
  assumes "index2 (data_values da) (fst level_idx) (snd level_idx) = Inr data_2d"
    and "aligned da data_2d"
  shows "(0 \<le> fst level_idx \<and> fst level_idx < int (length (data_values da)) \<and>
          0 \<le> snd level_idx \<and>
          snd level_idx < int (length (data_values da ! nat (fst level_idx))) \<longrightarrow>
            data_2d = data_values da ! nat (fst level_idx) ! nat (snd level_idx))
       \<and> set (valid_points data_2d (lon da) (lat da)) =
           {(lon da ! y ! x, lat da ! y ! x) | y x.
              y < length data_2d \<and> x < length (data_2d ! y) \<and> \<not> isnan (data_2d ! y ! x)}
       \<and> fst (get_valid_data_frame convex_hull da level_idx) =
           (if length (valid_points data_2d (lon da) (lat da)) < 3 then Inr None
            else Inr (Some (convex_hull (valid_points data_2d (lon da) (lat da)))))"
proof -
  have "data_2d = data_values da ! nat (fst level_idx) ! nat (snd level_idx)"
    if "0 \<le> fst level_idx" "fst level_idx < int (length (data_values da))"
      "0 \<le> snd level_idx"
      "snd level_idx < int (length (data_values da ! nat (fst level_idx)))"
    using index2_in_range[OF that] assms(1) by simp
  moreover have "fst (get_valid_data_frame convex_hull da level_idx) =
      (if length (valid_points data_2d (lon da) (lat da)) < 3 then Inr None
       else Inr (Some (convex_hull (valid_points data_2d (lon da) (lat da)))))"
    using frame_result[OF assms, of convex_hull] by (simp add: length_valid_points)
  ultimately show ?thesis by (simp only: set_valid_points) simp
qed

theorem hull_of_valid_points_witness:
  "index2 (data_values grid_with_gaps) (fst default_level_idx) (snd default_level_idx) =
     Inr [[Finite 1, NaN, Finite 2], [NaN, Finite 3, Finite 4]]
   \<and> aligned grid_with_gaps [[Finite 1, NaN, Finite 2], [NaN, Finite 3, Finite 4]]
   \<and> valid_points [[Finite 1, NaN, Finite 2], [NaN, Finite 3, Finite 4]]
        (lon grid_with_gaps) (lat grid_with_gaps) = [(0, 0), (2, 0), (1, 1), (2, 1)]
   \<and> fst (get_valid_data_frame reference_hull grid_with_gaps default_level_idx) =
        Inr (Some (Polygon [(0, 0), (2, 0), (1, 1), (2, 1)]))"
proof -
  have sl: "index2 (data_values grid_with_gaps) (fst default_level_idx) (snd default_level_idx) =
      Inr [[Finite 1, NaN, Finite 2], [NaN, Finite 3, Finite 4]]"
    by (simp add: default_level_idx_def grid_with_gaps_slice)
  from hull_of_valid_points[OF sl grid_with_gaps_aligned, of reference_hull]
  have "fst (get_valid_data_frame reference_hull grid_with_gaps default_level_idx) =
      (if length (valid_points [[Finite 1, NaN, Finite 2], [NaN, Finite 3, Finite 4]]
                    (lon grid_with_gaps) (lat grid_with_gaps)) < 3 then Inr None
       else Inr (Some (reference_hull (valid_points
              [[Finite 1, NaN, Finite 2], [NaN, Finite 3, Finite 4]]
              (lon grid_with_gaps) (lat grid_with_gaps)))))"
    by blast
  then have "fst (get_valid_data_frame reference_hull grid_with_gaps default_level_idx) =
      Inr (Some (Polygon [(0, 0), (2, 0), (1, 1), (2, 1)]))"
    by (simp only: grid_with_gaps_points grid_with_gaps_hull) simp
  with sl grid_with_gaps_aligned grid_with_gaps_points show ?thesis by simp
qed

subsection \<open>Fewer than three valid points\<close>

text \<open>
  Claim C3. When the selected slice has fewer than three values that are not NaN, the
  function returns \<open>None\<close> and raises nothing.
\<close>

theorem few_valid_points_none:
  assumes "index2 (data_values da) (fst level_idx) (snd level_idx) = Inr data_2d"
    and "aligned da data_2d"
    and "valid_count data_2d < 3"
  shows "fst (get_valid_data_frame convex_hull da level_idx) = Inr None"
  using frame_result[OF assms(1,2), of convex_hull] assms(3) by simp

theorem few_valid_points_none_witness:
  "index2 (data_values grid_two_valid) (fst default_level_idx) (snd default_level_idx) =
     Inr [[Finite 1, NaN, NaN], [NaN, NaN, Finite 4]]
   \<and> aligned grid_two_valid [[Finite 1, NaN, NaN], [NaN, NaN, Finite 4]]
   \<and> valid_count [[Finite 1, NaN, NaN], [NaN, NaN, Finite 4]] < 3
   \<and> fst (get_valid_data_frame reference_hull grid_two_valid default_level_idx) = Inr None"
proof -
  have sl: "index2 (data_values grid_two_valid) (fst default_level_idx) (snd default_level_idx) =
      Inr [[Finite 1, NaN, NaN], [NaN, NaN, Finite 4]]"
    by (simp add: default_level_idx_def grid_two_valid_slice)
  have lt: "valid_count [[Finite 1, NaN, NaN], [NaN, NaN, Finite 4]] < 3"
    by (simp add: grid_two_valid_count)
  from few_valid_points_none[OF sl grid_two_valid_aligned lt, of reference_hull]
    sl grid_two_valid_aligned lt
  show ?thesis by simp
qed

text \<open>
  Claim C10. The function returns \<open>None\<close> if and only if the slice has fewer than three
  valid points; with three or more it returns a geometry, also for collinear points.
\<close>

theorem none_iff_few_valid_points:
  assumes "index2 (data_values da) (fst level_idx) (snd level_idx) = Inr data_2d"
    and "aligned da data_2d"
  shows "((fst (get_valid_data_frame convex_hull da level_idx) = Inr None) =
            (valid_count data_2d < 3))
       \<and> (3 \<le> valid_count data_2d \<longrightarrow>
            (\<exists>g. fst (get_valid_data_frame convex_hull da level_idx) = Inr (Some g)))"
  using frame_result[OF assms, of convex_hull] by simp

text \<open>Three points on a line: the result is a \<open>LineString\<close>, not \<open>None\<close>.\<close>

theorem none_iff_few_valid_points_witness:
  "index2 (data_values grid_collinear) (fst (0, 0)) (snd (0, 0)) =
     Inr [[Finite 1, Finite 2, Finite 3]]
   \<and> aligned grid_collinear [[Finite 1, Finite 2, Finite 3]]
   \<and> valid_count [[Finite 1, Finite 2, Finite 3]] = 3
   \<and> fst (get_valid_data_frame reference_hull grid_collinear (0, 0)) \<noteq> Inr None
   \<and> fst (get_valid_data_frame reference_hull grid_collinear (0, 0)) =
        Inr (Some (LineString [(0, 0), (2, 0)]))"
proof -
  have sl: "index2 (data_values grid_collinear) (fst (0, 0)) (snd (0, 0)) =
      Inr [[Finite 1, Finite 2, Finite 3]]"
    by (simp add: grid_collinear_slice)
  from none_iff_few_valid_points[OF sl grid_collinear_aligned, of reference_hull]
  have "fst (get_valid_data_frame reference_hull grid_collinear (0, 0)) \<noteq> Inr None"
    by (simp add: grid_collinear_count)
  with sl grid_collinear_aligned grid_collinear_count grid_collinear_result
  show ?thesis by simp
qed

subsection \<open>A full rectangular grid\<close>




subsection \<open>Repeated calls and the inputs\<close>





end
